theory Spec2Isabelle
  imports Main "HOL-Library.Word"
begin

section \<open>Strings\<close>

text \<open>
  A JavaScript string is a sequence of UTF-16 code units. The Cyrillic literals of
  \<^verbatim>\<open>server.js\<close> are written here by their code units (all of them lie in the
  Basic Multilingual Plane, one unit per letter).
\<close>

type_synonym jsstring = "16 word list"

text \<open>An ASCII literal as a JavaScript string.\<close>

definition js :: "string \<Rightarrow> jsstring" where
  "js s = map (\<lambda>c. of_nat (of_char c)) s"

text \<open>\<^verbatim>\<open>s.startsWith(p)\<close>\<close>

fun startsWith :: "jsstring \<Rightarrow> jsstring \<Rightarrow> bool" where
  "startsWith s [] = True"
| "startsWith [] (c # p) = False"
| "startsWith (a # s) (c # p) = (a = c \<and> startsWith s p)"

text \<open>\<^verbatim>\<open>s.includes(p)\<close>: \<open>p\<close> starts at some position of \<open>s\<close>.\<close>

fun includes_js :: "jsstring \<Rightarrow> jsstring \<Rightarrow> bool" where
  "includes_js [] p = (p = [])"
| "includes_js (a # s) p = (startsWith (a # s) p \<or> includes_js s p)"

text \<open>
  \<^verbatim>\<open>String.prototype.toLowerCase\<close> is a built-in of the language, not code of the
  repository: the functions that call it take it as the parameter \<open>lower\<close>. For
  concrete runs \<open>toLowerCase_basic\<close> is its restriction to Basic Latin and to the
  Cyrillic capitals U+0400..U+042F, which covers every literal of the program.
\<close>

definition lower_unit :: "16 word \<Rightarrow> 16 word" where
  "lower_unit c =
     (if 0x41 \<le> c \<and> c \<le> 0x5A then c + 0x20
      else if 0x410 \<le> c \<and> c \<le> 0x42F then c + 0x20
      else if 0x400 \<le> c \<and> c \<le> 0x40F then c + 0x50
      else c)"

definition toLowerCase_basic :: "jsstring \<Rightarrow> jsstring" where
  "toLowerCase_basic s = map lower_unit s"

section \<open>Region lookup\<close>

text \<open>The literals \<^verbatim>\<open>'Moskva'\<close>, \<^verbatim>\<open>'Sankt-Peterburg'\<close> and \<^verbatim>\<open>'Kazan'\<close> (in Cyrillic).\<close>

definition Moskva :: jsstring where
  "Moskva = [0x41C, 0x43E, 0x441, 0x43A, 0x432, 0x430]"

definition Sankt_Peterburg :: jsstring where
  "Sankt_Peterburg =
     [0x421, 0x430, 0x43D, 0x43A, 0x442, 0x2D, 0x41F, 0x435, 0x442, 0x435, 0x440, 0x431,
      0x443, 0x440, 0x433]"

definition Kazan :: jsstring where
  "Kazan = [0x41A, 0x430, 0x437, 0x430, 0x43D, 0x44C]"

text \<open>
  \<^verbatim>\<open>CITY_CHANNELS\<close>: an object literal; its keys are not integer-like, so
  \<^verbatim>\<open>Object.keys\<close> lists them in the order they are written.
\<close>

definition CITY_CHANNELS :: "(jsstring \<times> jsstring) list" where
  "CITY_CHANNELS =
     [(Moskva, js ''@apexclean_moscow''),
      (Sankt_Peterburg, js ''@apexclean_spb''),
      (Kazan, js ''@apexclean_kazan'')]"

definition object_keys :: "('k \<times> 'v) list \<Rightarrow> 'k list" where
  "object_keys obj = map fst obj"

text \<open>
  \<^verbatim>\<open>extractCityFromAddress\<close>: the \<^verbatim>\<open>for (const city of cities)\<close> loop with its early
  \<^verbatim>\<open>return city\<close>, and the \<^verbatim>\<open>return 'Moskva'\<close> after it.
\<close>

fun cities_loop :: "(jsstring \<Rightarrow> jsstring) \<Rightarrow> jsstring \<Rightarrow> jsstring list \<Rightarrow> jsstring" where
  "cities_loop lower address [] = Moskva"
| "cities_loop lower address (city # rest) =
     (if includes_js (lower address) (lower city) then city
      else cities_loop lower address rest)"

definition extractCityFromAddress :: "(jsstring \<Rightarrow> jsstring) \<Rightarrow> jsstring \<Rightarrow> jsstring" where
  "extractCityFromAddress lower address =
     cities_loop lower address (object_keys CITY_CHANNELS)"

subsection \<open>The region lookup as the specification words it\<close>

text \<open>
  A region name occurs case-insensitively in an address when the lowered name is a
  contiguous part of the lowered address.
\<close>

definition occurs_in :: "jsstring \<Rightarrow> jsstring \<Rightarrow> bool" where
  "occurs_in p s = (\<exists>before after. s = before @ p @ after)"

definition configured_regions :: "jsstring list" where
  "configured_regions = [Moskva, Sankt_Peterburg, Kazan]"

definition default_region :: jsstring where
  "default_region = Moskva"

definition resolve_region_spec :: "(jsstring \<Rightarrow> jsstring) \<Rightarrow> jsstring \<Rightarrow> jsstring" where
  "resolve_region_spec lower address =
     (case find (\<lambda>region. occurs_in (lower region) (lower address)) configured_regions of
        Some region \<Rightarrow> region
      | None \<Rightarrow> default_region)"

section \<open>Values, orders and the state of the process\<close>

text \<open>
  The JavaScript values that serve as worker identities: a Telegram user id is a number,
  a request body may carry a string, a number or nothing. \<^verbatim>\<open>Map\<close> compares keys by
  SameValueZero and \<^verbatim>\<open>===\<close> compares without conversion: on these values both are
  equality of \<open>jsval\<close>, so a number never equals a string.
\<close>

datatype jsval = JUndefined | JNum int | JStr jsstring

text \<open>The three strings \<^verbatim>\<open>'pending'\<close>, \<^verbatim>\<open>'taken'\<close>, \<^verbatim>\<open>'completed'\<close> assigned to \<^verbatim>\<open>status\<close>.\<close>

datatype status = Pending | Taken | Completed

fun status_string :: "status \<Rightarrow> jsstring" where
  "status_string Pending = js ''pending''"
| "status_string Taken = js ''taken''"
| "status_string Completed = js ''completed''"

text \<open>
  The fields of the request body of \<^verbatim>\<open>/api/create-order\<close> that the program reads by
  name. The address is \<open>None\<close> when the body has no string there.
\<close>

record order_data =
  manager :: jsstring
  customerName :: jsstring
  customerPhone :: jsstring
  customerAddress :: "jsstring option"
  customerFlat :: jsstring
  area :: jsstring
  cleaningType :: jsstring
  difficulty :: jsstring
  orderDate :: jsstring
  orderTime :: jsstring
  orderTotal :: jsstring
  masterPay :: jsstring
  pets :: jsstring
  equipment :: jsstring
  chemistry :: jsstring
  worksDescription :: jsstring

text \<open>
  The whole request body. The order is made by \<^verbatim>\<open>{...orderData, id, status, createdAt}\<close>,
  so every other property of the body becomes a property of the order, also one that a
  handler assigns or reads later. A property that is absent reads \<^verbatim>\<open>undefined\<close>: \<open>None\<close>
  here, and \<open>JUndefined\<close> for \<open>masterId\<close>. Each value has the type at which the program
  uses it: \<open>photos\<close> is absent or an object whose values are strings. No statement of
  the program assigns \<open>completedAt\<close> (the only mention is an empty ledger cell in
  \<^verbatim>\<open>saveToGoogleSheets\<close>); the field is kept so that this can be said.
\<close>

record request_body = order_data +
  telegramMessageId :: "int option"
  telegramChatId :: "int option"
  masterId :: jsval
  masterName :: "jsstring option"
  takenAt :: "jsstring option"
  completedAt :: "jsstring option"
  photos :: "(jsstring \<rightharpoonup> jsstring) option"

text \<open>An order object: the spread of the body, then \<^verbatim>\<open>id\<close>, \<^verbatim>\<open>status\<close> and \<^verbatim>\<open>createdAt\<close>.\<close>

record order = request_body +
  order_id :: jsstring
  status :: status
  createdAt :: jsstring

datatype reminder = Reminder24h | Reminder2h

text \<open>
  A pending \<^verbatim>\<open>setTimeout\<close>: the delay passed (\<open>None\<close> is \<^verbatim>\<open>NaN\<close>, from a date that does
  not parse), and what the callback closes over.
\<close>

datatype timer =
  Timer (timer_delay: "int option") (timer_chat: int) (timer_kind: reminder) (timer_order: jsstring)

datatype target = Chat int | Channel jsstring | NoChat

text \<open>The messages, by the template that formats them and the data it is given.\<close>

datatype notice =
  OrderOffer jsstring
| FullOrderInfo order
| Welcome jsstring
| PhotoSaved
| OrderFinished
| ManagerNotice order

datatype answer = Accepted | AlreadyTaken | Rejected

datatype bot_call =
  SendMessage target notice
| DeleteMessage "int option" "int option"
| AnswerCallbackQuery jsstring answer
| GetFile jsstring

text \<open>
  The state: the two \<^verbatim>\<open>Map\<close>s of the process (a \<^verbatim>\<open>Map\<close> keeps insertion order, which
  \<^verbatim>\<open>orders.values()\<close> exposes), the armed timers, the rows of the ledger sheet and the
  calls issued to the bot API.
\<close>

record state =
  orders :: "(jsstring \<times> order) list"
  masters :: "(jsval \<times> int) list"
  timers :: "timer list"
  sheet :: "jsstring list list"
  bot_log :: "bot_call list"

definition init_state :: state where
  "init_state = \<lparr>orders = [], masters = [], timers = [], sheet = [], bot_log = []\<rparr>"

text \<open>
  What a handler run reads from outside the program: the clock (two readings each of
  \<^verbatim>\<open>new Date().toISOString()\<close> and \<^verbatim>\<open>Date.now()\<close>), whether each awaited call resolves
  or rejects, and the results of the calls that return data.
\<close>

record env =
  iso_now :: jsstring
  iso_now2 :: jsstring
  ms_now :: int
  ms_now2 :: int
  deleteMessage_ok :: bool
  sendMessage_ok :: bool
  answer_ok :: bool
  getFile_ok :: bool
  ledger_ok :: bool
  ledger2_ok :: bool
  sent_message_id :: int
  sent_chat_id :: int
  file_path :: jsstring

text \<open>The built-ins and the configuration the program is run with.\<close>

record platform =
  toLowerCase :: "jsstring \<Rightarrow> jsstring"
  parseDate :: "jsstring \<Rightarrow> int option"
  bot_token :: jsstring

subsection \<open>Maps and objects\<close>

text \<open>\<^verbatim>\<open>m.set(k, v)\<close>: an existing key keeps its place, a new key goes last.\<close>

fun update_first :: "('a \<Rightarrow> bool) \<Rightarrow> ('a \<Rightarrow> 'a) \<Rightarrow> 'a list \<Rightarrow> 'a list" where
  "update_first P f [] = []"
| "update_first P f (x # xs) = (if P x then f x # xs else x # update_first P f xs)"

definition map_set :: "'k \<Rightarrow> 'v \<Rightarrow> ('k \<times> 'v) list \<Rightarrow> ('k \<times> 'v) list" where
  "map_set k v m =
     (case map_of m k of
        None \<Rightarrow> m @ [(k, v)]
      | Some old \<Rightarrow> update_first (\<lambda>e. fst e = k) (\<lambda>e. (k, v)) m)"

text \<open>
  An assignment to a property of the object that \<^verbatim>\<open>orders.get(orderId)\<close> returned: the
  object is shared with the map, so the entry changes.
\<close>

definition modify_order :: "jsstring \<Rightarrow> (order \<Rightarrow> order) \<Rightarrow> state \<Rightarrow> state" where
  "modify_order orderId f st =
     st\<lparr>orders := update_first (\<lambda>e. fst e = orderId) (\<lambda>e. (fst e, f (snd e))) (orders st)\<rparr>"

text \<open>
  \<^verbatim>\<open>if (!order.photos) order.photos = {}; order.photos[type] = photoUrl\<close>. The key
  \<^verbatim>\<open>'__proto__'\<close> is the one key for which the assignment does not make a property: on
  an object without an own property of that name it reaches the setter of
  \<^verbatim>\<open>Object.prototype\<close>, which ignores a string. (An object parsed from a request body
  can have that own property, and then the assignment writes it.)
\<close>

definition set_photo :: "jsstring \<Rightarrow> jsstring \<Rightarrow> order \<Rightarrow> order" where
  "set_photo type photoUrl order =
     (let ph = (case photos order of None \<Rightarrow> Map.empty | Some ph \<Rightarrow> ph)
      in order\<lparr>photos :=
           Some (if type = js ''__proto__'' \<and> ph type = None then ph else ph(type \<mapsto> photoUrl))\<rparr>)"

text \<open>
  An object literal with computed keys, as the list of its entries in insertion order; a
  key written twice keeps its first place and its last value. (No key of the literals
  below is a canonical array index, which would be listed first: each holds an
  underscore or is a plain word.) \<^verbatim>\<open>Object.values\<close> lists the values in that order.
\<close>

fun object_literal :: "('k \<times> 'v) list \<Rightarrow> ('k \<times> 'v) list" where
  "object_literal [] = []"
| "object_literal (e # es) = fold (\<lambda>kv obj. map_set (fst kv) (snd kv) obj) es [e]"

definition object_values :: "('k \<times> 'v) list \<Rightarrow> 'v list" where
  "object_values obj = map snd obj"

subsection \<open>Exceptions\<close>

text \<open>
  A step either completes (\<open>Inr\<close>) or throws (\<open>Inl\<close>); both carry the state reached, since
  nothing undoes the assignments made before a throw.
\<close>

type_synonym outcome = "state + state"

definition and_then :: "outcome \<Rightarrow> (state \<Rightarrow> outcome) \<Rightarrow> outcome" where
  "and_then r f = (case r of Inl st \<Rightarrow> Inl st | Inr st \<Rightarrow> f st)"

definition log_call :: "bot_call \<Rightarrow> state \<Rightarrow> state" where
  "log_call c st = st\<lparr>bot_log := bot_log st @ [c]\<rparr>"

text \<open>An awaited call to the bot API: issued, and then resolved or rejected.\<close>

definition await_call :: "bool \<Rightarrow> bot_call \<Rightarrow> state \<Rightarrow> outcome" where
  "await_call ok c st = (if ok then Inr (log_call c st) else Inl (log_call c st))"

datatype response = Ok200 | NotFound404 | Error500

text \<open>The \<^verbatim>\<open>try { ... res.json({success: true}) } catch { res.status(500) }\<close> of an endpoint.\<close>

definition respond :: "outcome \<Rightarrow> response \<times> state" where
  "respond r = (case r of Inl st \<Rightarrow> (Error500, st) | Inr st \<Rightarrow> (Ok200, st))"

text \<open>A bot event handler has no catch: a rejection ends the handler where it stands.\<close>

definition finish :: "outcome \<Rightarrow> state" where
  "finish r = (case r of Inl st \<Rightarrow> st | Inr st \<Rightarrow> st)"

section \<open>The ledger\<close>

text \<open>\<^verbatim>\<open>String(n)\<close> of an integer: its decimal digits.\<close>

function digits10 :: "nat \<Rightarrow> jsstring" where
  "digits10 n = (if n < 10 then [of_nat (48 + n)] else digits10 (n div 10) @ [of_nat (48 + n mod 10)])"
  by pat_completeness auto
termination
  by (relation "measure (\<lambda>n. n)") auto

definition num_toString :: "int \<Rightarrow> jsstring" where
  "num_toString i = (if i < 0 then 0x2D # digits10 (nat (- i)) else digits10 (nat i))"

text \<open>
  \<^verbatim>\<open>saveToGoogleSheets\<close>: one row, columns A, B, C, ... in this order (the status is the
  eleventh value, column K), appended below the rows of the sheet.
\<close>

definition ledger_row :: "jsstring \<Rightarrow> 'a order_data_scheme \<Rightarrow> jsstring \<Rightarrow> status \<Rightarrow> jsstring list" where
  "ledger_row stamp orderData orderId st =
     [stamp, orderId, manager orderData, customerName orderData, customerPhone orderData,
      (case customerAddress orderData of None \<Rightarrow> [] | Some a \<Rightarrow> a),
      customerFlat orderData, area orderData, cleaningType orderData, difficulty orderData,
      status_string st, orderDate orderData, orderTime orderData, orderTotal orderData,
      masterPay orderData, pets orderData, equipment orderData, chemistry orderData,
      worksDescription orderData, [], [], [], []]"

definition saveToGoogleSheets ::
  "bool \<Rightarrow> jsstring \<Rightarrow> 'a order_data_scheme \<Rightarrow> jsstring \<Rightarrow> status \<Rightarrow> state \<Rightarrow> outcome" where
  "saveToGoogleSheets ok stamp orderData orderId s st =
     (if ok then Inr (st\<lparr>sheet := sheet st @ [ledger_row stamp orderData orderId s]\<rparr>) else Inl st)"

text \<open>The position of the first element that satisfies \<open>P\<close>; \<^verbatim>\<open>findIndex\<close> gives -1 for none.\<close>

fun find_pos :: "('a \<Rightarrow> bool) \<Rightarrow> 'a list \<Rightarrow> nat option" where
  "find_pos P [] = None"
| "find_pos P (x # xs) = (if P x then Some 0 else map_option Suc (find_pos P xs))"

definition findIndex :: "('a \<Rightarrow> bool) \<Rightarrow> 'a list \<Rightarrow> int" where
  "findIndex P xs = (case find_pos P xs of None \<Rightarrow> - 1 | Some i \<Rightarrow> int i)"

text \<open>\<^verbatim>\<open>row[1] === orderId\<close>; a row with fewer than two cells has \<^verbatim>\<open>undefined\<close> there.\<close>

definition row_has_key :: "jsstring \<Rightarrow> jsstring list \<Rightarrow> bool" where
  "row_has_key orderId row = (1 < length row \<and> row ! 1 = orderId)"

text \<open>
  A write of the values \<open>vals\<close> into one row from column \<open>col\<close> on (column A is 0): the
  cells written are replaced, a row that ends before \<open>col\<close> is filled with empty cells up
  to it, and the cells after the values stay.
\<close>

definition write_cells :: "nat \<Rightarrow> 'a list \<Rightarrow> 'a \<Rightarrow> 'a list \<Rightarrow> 'a list" where
  "write_cells col vals blank row =
     take col (row @ replicate (col - length row) blank) @ vals @ drop (col + length vals) row"

text \<open>
  \<^verbatim>\<open>updateGoogleSheet\<close>: reads columns A:B, finds the row of the order and writes
  \<^verbatim>\<open>Object.values(updates)\<close> into the range that starts at column K of that row. \<open>ok\<close>
  says whether the calls to the Sheets API resolve; when one rejects the routine throws
  and the sheet is as before.
\<close>

definition update_rows :: "jsstring \<Rightarrow> (jsstring \<times> jsstring) list \<Rightarrow> jsstring list list \<Rightarrow> jsstring list list" where
  "update_rows orderId updates rows =
     (let rowIndex = findIndex (row_has_key orderId) rows + 1
      in if rowIndex > 0
         then rows[nat (rowIndex - 1) :=
                write_cells 10 (object_values updates) [] (rows ! nat (rowIndex - 1))]
         else rows)"

definition updateGoogleSheet :: "bool \<Rightarrow> jsstring \<Rightarrow> (jsstring \<times> jsstring) list \<Rightarrow> state \<Rightarrow> outcome" where
  "updateGoogleSheet ok orderId updates st =
     (if ok then Inr (st\<lparr>sheet := update_rows orderId updates (sheet st)\<rparr>) else Inl st)"

section \<open>Reminders\<close>

text \<open>
  \<^verbatim>\<open>scheduleNotifications\<close>. Reading \<^verbatim>\<open>masterId\<close> of an order that is not in the map
  throws. The two \<^verbatim>\<open>Date.now()\<close> readings are \<open>ms_now\<close> and \<open>ms_now2\<close>.
\<close>

definition scheduleNotifications :: "platform \<Rightarrow> env \<Rightarrow> jsstring \<Rightarrow> jsstring \<Rightarrow> jsstring \<Rightarrow> state \<Rightarrow> outcome" where
  "scheduleNotifications pf env orderId date time st =
     (let orderDateTime = parseDate pf (date @ js ''T'' @ time) in
      case map_of (orders st) orderId of
        None \<Rightarrow> Inl st
      | Some order \<Rightarrow>
          (case map_of (masters st) (masterId order) of
             None \<Rightarrow> Inr st
           | Some masterChatId \<Rightarrow>
               if masterChatId = 0 then Inr st
               else
                 let reminder24h = map_option (\<lambda>t. t - 24 * 60 * 60 * 1000) orderDateTime;
                     reminder2h = map_option (\<lambda>t. t - 2 * 60 * 60 * 1000) orderDateTime
                 in Inr (st\<lparr>timers := timers st @
                      [Timer (map_option (\<lambda>r. r - ms_now env) reminder24h) masterChatId Reminder24h orderId,
                       Timer (map_option (\<lambda>r. r - ms_now2 env) reminder2h) masterChatId Reminder2h orderId]\<rparr>)))"



section \<open>The endpoints\<close>

text \<open>\<^verbatim>\<open>{...orderData, id: orderId, status: 'pending', createdAt: ...}\<close>\<close>

definition new_order :: "request_body \<Rightarrow> jsstring \<Rightarrow> jsstring \<Rightarrow> order" where
  "new_order orderData orderId stamp =
     request_body.extend orderData (order.fields orderId Pending stamp)"

text \<open>\<^verbatim>\<open>CITY_CHANNELS[city] || CITY_CHANNELS['Moskva']\<close>\<close>

definition channel_for :: "jsstring \<Rightarrow> jsstring" where
  "channel_for city =
     (let fallback = (case map_of CITY_CHANNELS Moskva of None \<Rightarrow> [] | Some ch \<Rightarrow> ch)
      in case map_of CITY_CHANNELS city of
           None \<Rightarrow> fallback
         | Some ch \<Rightarrow> if ch = [] then fallback else ch)"

text \<open>
  \<^verbatim>\<open>app.post('/api/create-order')\<close>. An address that is not a string makes
  \<^verbatim>\<open>extractCityFromAddress\<close> throw, after the order has been stored.
\<close>

definition create_order :: "platform \<Rightarrow> env \<Rightarrow> request_body \<Rightarrow> state \<Rightarrow> response \<times> state" where
  "create_order pf env orderData st =
     (let orderId = js ''CLN-'' @ num_toString (ms_now env);
          st1 = st\<lparr>orders := map_set orderId (new_order orderData orderId (iso_now env)) (orders st)\<rparr>
      in respond
        (case customerAddress orderData of
           None \<Rightarrow> Inl st1
         | Some address \<Rightarrow>
             let city = extractCityFromAddress (toLowerCase pf) address;
                 channel = channel_for city
             in and_then (await_call (sendMessage_ok env) (SendMessage (Channel channel) (OrderOffer orderId)) st1)
               (\<lambda>st. and_then
                  (Inr (modify_order orderId
                     (\<lambda>order. order\<lparr>telegramMessageId := Some (sent_message_id env),
                                    telegramChatId := Some (sent_chat_id env)\<rparr>) st))
               (\<lambda>st. saveToGoogleSheets (ledger_ok env) (iso_now2 env) orderData orderId Pending st))))"

text \<open>The four assignments of a claim.\<close>

definition claim_fields :: "jsval \<Rightarrow> jsstring \<Rightarrow> jsstring \<Rightarrow> order \<Rightarrow> order" where
  "claim_fields mId mName stamp order =
     order\<lparr>status := Taken, masterId := mId, masterName := Some mName, takenAt := Some stamp\<rparr>"

definition taken_updates :: "jsstring \<Rightarrow> jsstring \<Rightarrow> (jsstring \<times> jsstring) list" where
  "taken_updates mName stamp =
     object_literal [(js ''status'', js ''taken''), (js ''masterName'', mName), (js ''takenAt'', stamp)]"

text \<open>\<^verbatim>\<open>app.post('/api/take-order')\<close>\<close>

definition take_order_api :: "platform \<Rightarrow> env \<Rightarrow> jsstring \<Rightarrow> jsval \<Rightarrow> jsstring \<Rightarrow> state \<Rightarrow> response \<times> state" where
  "take_order_api pf env orderId mId mName st =
     (case map_of (orders st) orderId of
        None \<Rightarrow> (NotFound404, st)
      | Some order0 \<Rightarrow>
          let order = claim_fields mId mName (iso_now env) order0
          in respond
            (and_then
               (await_call (deleteMessage_ok env)
                  (DeleteMessage (telegramChatId order) (telegramMessageId order))
                  (modify_order orderId (claim_fields mId mName (iso_now env)) st))
            (\<lambda>st. and_then
               (case map_of (masters st) mId of
                  None \<Rightarrow> Inr st
                | Some masterChatId \<Rightarrow>
                    if masterChatId = 0 then Inr st
                    else await_call (sendMessage_ok env)
                           (SendMessage (Chat masterChatId) (FullOrderInfo order)) st)
            (\<lambda>st. and_then
               (updateGoogleSheet (ledger_ok env) orderId (taken_updates mName (iso_now env)) st)
            (\<lambda>st. scheduleNotifications pf env orderId (orderDate order) (orderTime order) st)))))"

text \<open>
  The same endpoint when another handler runs while it waits. The handler makes its
  assignments and calls \<^verbatim>\<open>deleteMessage\<close>; \<open>other\<close> is what happens to the state until
  that call settles; then the handler goes on with the order object as it is by then
  (\<^verbatim>\<open>order\<close> is a reference to the object in the map) and with its own \<^verbatim>\<open>masterId\<close> and
  \<^verbatim>\<open>masterName\<close>. \<open>take_order_after_delete\<close> is the part of the handler after that first
  \<^verbatim>\<open>await\<close>.
\<close>

definition take_order_after_delete ::
  "platform \<Rightarrow> env \<Rightarrow> jsstring \<Rightarrow> jsval \<Rightarrow> jsstring \<Rightarrow> order \<Rightarrow> state \<Rightarrow> outcome" where
  "take_order_after_delete pf env orderId mId mName order st =
     and_then
       (case map_of (masters st) mId of
          None \<Rightarrow> Inr st
        | Some masterChatId \<Rightarrow>
            if masterChatId = 0 then Inr st
            else await_call (sendMessage_ok env)
                   (SendMessage (Chat masterChatId) (FullOrderInfo order)) st)
     (\<lambda>st. and_then
        (updateGoogleSheet (ledger_ok env) orderId
           (taken_updates mName (case takenAt order of None \<Rightarrow> [] | Some stamp \<Rightarrow> stamp)) st)
     (\<lambda>st. scheduleNotifications pf env orderId (orderDate order) (orderTime order) st))"

definition take_order_interleaved ::
  "platform \<Rightarrow> env \<Rightarrow> jsstring \<Rightarrow> jsval \<Rightarrow> jsstring \<Rightarrow> (state \<Rightarrow> state) \<Rightarrow> state \<Rightarrow> response \<times> state" where
  "take_order_interleaved pf env orderId mId mName other st =
     (case map_of (orders st) orderId of
        None \<Rightarrow> (NotFound404, st)
      | Some order0 \<Rightarrow>
          let order = claim_fields mId mName (iso_now env) order0;
              st1 = log_call (DeleteMessage (telegramChatId order) (telegramMessageId order))
                      (modify_order orderId (claim_fields mId mName (iso_now env)) st);
              st2 = other st1;
              live = (case map_of (orders st2) orderId of None \<Rightarrow> order | Some x \<Rightarrow> x)
          in respond
               (if deleteMessage_ok env
                then take_order_after_delete pf env orderId mId mName live st2
                else Inl st2))"

definition photo_updates :: "jsstring \<Rightarrow> jsstring \<Rightarrow> jsstring \<Rightarrow> (jsstring \<times> jsstring) list" where
  "photo_updates type photoUrl stamp =
     object_literal [(js ''photo_'' @ type, photoUrl), (type @ js ''_at'', stamp)]"

text \<open>\<^verbatim>\<open>app.post('/api/upload-photo')\<close>; \<^verbatim>\<open>notifyManager\<close> is its one awaited message.\<close>

definition upload_photo_api :: "env \<Rightarrow> jsstring \<Rightarrow> jsstring \<Rightarrow> jsstring \<Rightarrow> state \<Rightarrow> response \<times> state" where
  "upload_photo_api env orderId type photoUrl st =
     (case map_of (orders st) orderId of
        None \<Rightarrow> (NotFound404, st)
      | Some order0 \<Rightarrow>
          let order = set_photo type photoUrl order0
          in respond
            (and_then
               (updateGoogleSheet (ledger_ok env) orderId (photo_updates type photoUrl (iso_now env))
                  (modify_order orderId (set_photo type photoUrl) st))
            (\<lambda>st. if type = js ''after''
                   then await_call (sendMessage_ok env)
                          (SendMessage (Channel (js ''@apexclean_managers'')) (ManagerNotice order)) st
                   else Inr st)))"

section \<open>The bot handlers\<close>

text \<open>\<^verbatim>\<open>bot.onText(/\/start/)\<close>: the directory key is \<^verbatim>\<open>userId.toString()\<close>, a string.\<close>

definition on_start :: "int \<Rightarrow> int \<Rightarrow> jsstring \<Rightarrow> state \<Rightarrow> state" where
  "on_start chatId userId userName st =
     log_call (SendMessage (Chat chatId) (Welcome userName))
       (st\<lparr>masters := map_set (JStr (num_toString userId)) chatId (masters st)\<rparr>)"

text \<open>\<^verbatim>\<open>s.replace(p, r)\<close> with a string pattern: the first occurrence only.\<close>

fun replace_first :: "jsstring \<Rightarrow> jsstring \<Rightarrow> jsstring \<Rightarrow> jsstring" where
  "replace_first p r [] = (if p = [] then r else [])"
| "replace_first p r (a # s) =
     (if startsWith (a # s) p then r @ drop (length p) (a # s) else a # replace_first p r s)"

text \<open>
  \<^verbatim>\<open>bot.on('callback_query')\<close>. The worker identity is \<^verbatim>\<open>callbackQuery.from.id\<close>, a
  number. The test of \<^verbatim>\<open>order.status\<close> and the assignments that follow it run without
  an \<^verbatim>\<open>await\<close> between them.
\<close>

definition on_callback_query ::
  "platform \<Rightarrow> env \<Rightarrow> jsstring \<Rightarrow> int \<Rightarrow> int \<Rightarrow> jsstring \<Rightarrow> int \<Rightarrow> jsstring \<Rightarrow> state \<Rightarrow> state" where
  "on_callback_query pf env queryId chatId messageId data fromId firstName st =
     finish
       (and_then
          (if startsWith data (js ''take_'')
           then
             let orderId = replace_first (js ''take_'') [] data
             in case map_of (orders st) orderId of
                  None \<Rightarrow> await_call (answer_ok env) (AnswerCallbackQuery queryId AlreadyTaken) st
                | Some order0 \<Rightarrow>
                    if status order0 = Pending
                    then
                      let order = claim_fields (JNum fromId) firstName (iso_now env) order0
                      in and_then
                           (await_call (deleteMessage_ok env) (DeleteMessage (Some chatId) (Some messageId))
                              (modify_order orderId (claim_fields (JNum fromId) firstName (iso_now env)) st))
                        (\<lambda>st. and_then
                           (await_call (sendMessage_ok env)
                              (SendMessage
                                 (case map_of (masters st) (JNum fromId) of
                                    None \<Rightarrow> NoChat
                                  | Some masterChatId \<Rightarrow> Chat masterChatId)
                                 (FullOrderInfo order)) st)
                        (\<lambda>st. and_then
                           (updateGoogleSheet (ledger_ok env) orderId (taken_updates firstName (iso_now env)) st)
                        (\<lambda>st. and_then
                           (await_call (answer_ok env) (AnswerCallbackQuery queryId Accepted) st)
                        (\<lambda>st. scheduleNotifications pf env orderId (orderDate order) (orderTime order) st))))
                    else await_call (answer_ok env) (AnswerCallbackQuery queryId AlreadyTaken) st
           else Inr st)
       (\<lambda>st. if startsWith data (js ''reject_'')
              then await_call (answer_ok env) (AnswerCallbackQuery queryId Rejected) st
              else Inr st))"

text \<open>The caption markers (in Cyrillic): \<^verbatim>\<open>'na meste'\<close>, \<^verbatim>\<open>'himiya'\<close>, \<^verbatim>\<open>'do'\<close>, \<^verbatim>\<open>'posle'\<close>.\<close>

definition na_meste :: jsstring where
  "na_meste = [0x43D, 0x430, 0x20, 0x43C, 0x435, 0x441, 0x442, 0x435]"

definition himiya :: jsstring where
  "himiya = [0x445, 0x438, 0x43C, 0x438, 0x44F]"

definition do_marker :: jsstring where
  "do_marker = [0x434, 0x43E]"

definition posle :: jsstring where
  "posle = [0x43F, 0x43E, 0x441, 0x43B, 0x435]"

text \<open>The \<^verbatim>\<open>if / else if\<close> chain over the caption; \<^verbatim>\<open>type\<close> stays \<^verbatim>\<open>''\<close> when none matches.\<close>

definition classify_caption :: "jsstring \<Rightarrow> jsstring" where
  "classify_caption txt =
     (if includes_js txt na_meste then js ''on_site''
      else if includes_js txt himiya then js ''chemistry''
      else if includes_js txt do_marker then js ''before''
      else if includes_js txt posle then js ''after''
      else [])"

text \<open>
  An assignment to a property of the object that \<^verbatim>\<open>find\<close> returned from
  \<^verbatim>\<open>orders.values()\<close>: the entry at the position found changes.
\<close>

definition modify_at :: "nat \<Rightarrow> (order \<Rightarrow> order) \<Rightarrow> state \<Rightarrow> state" where
  "modify_at i f st =
     st\<lparr>orders := (orders st)[i := (fst (orders st ! i), f (snd (orders st ! i)))]\<rparr>"

definition taken_by :: "int \<Rightarrow> jsstring \<times> order \<Rightarrow> bool" where
  "taken_by fromId e = (masterId (snd e) = JNum fromId \<and> status (snd e) = Taken)"

text \<open>
  \<^verbatim>\<open>bot.on('photo')\<close>. \<^verbatim>\<open>msg.caption || ''\<close> is the caption, or \<^verbatim>\<open>''\<close> without one. The
  two messages to the worker are not awaited. The ledger is addressed by \<^verbatim>\<open>order.id\<close>.
  \<open>file_url\<close> is the template literal that builds the photo URL from the bot token and
  the path \<^verbatim>\<open>getFile\<close> returned.
\<close>

definition file_url :: "platform \<Rightarrow> env \<Rightarrow> jsstring" where
  "file_url pf env = js ''https://api.telegram.org/file/bot'' @ bot_token pf @ js ''/'' @ file_path env"

definition on_photo ::
  "platform \<Rightarrow> env \<Rightarrow> int \<Rightarrow> int \<Rightarrow> jsstring option \<Rightarrow> jsstring \<Rightarrow> state \<Rightarrow> state" where
  "on_photo pf env chatId fromId caption fileId st =
     (let txt = (case caption of None \<Rightarrow> [] | Some c \<Rightarrow> c);
          type = classify_caption txt
      in finish
        (if type \<noteq> []
         then and_then (await_call (getFile_ok env) (GetFile fileId) st)
           (\<lambda>st.
              let photoUrl = file_url pf env
              in case find_pos (taken_by fromId) (orders st) of
                   None \<Rightarrow> Inr st
                 | Some i \<Rightarrow>
                     let st1 = modify_at i (set_photo type photoUrl) st;
                         orderId = order_id (snd (orders st1 ! i))
                     in and_then
                          (updateGoogleSheet (ledger_ok env) orderId (photo_updates type photoUrl (iso_now env)) st1)
                       (\<lambda>st.
                          let st2 = log_call (SendMessage (Chat chatId) PhotoSaved) st
                          in if type = js ''after''
                             then and_then
                                    (updateGoogleSheet (ledger2_ok env) orderId
                                       (object_literal [(js ''status'', js ''completed'')])
                                       (modify_at i (\<lambda>order. order\<lparr>status := Completed\<rparr>) st2))
                                  (\<lambda>st. Inr (log_call (SendMessage (Chat chatId) OrderFinished) st))
                             else Inr st2))
         else Inr st))"

section \<open>Runs\<close>

text \<open>
  The requests and bot events the process receives, each with what it reads from outside.
  A run takes the events one after the other, each handler to its end. A handler that
  runs while another one waits for a call is not part of a run; for the take-order
  endpoint \<open>take_order_interleaved\<close> says what that does.
\<close>

datatype event =
  CreateOrder env request_body
| TakeOrder env jsstring jsval jsstring
| UploadPhoto env jsstring jsstring jsstring
| Start int int jsstring
| CallbackQuery env jsstring int int jsstring int jsstring
| Photo env int int "jsstring option" jsstring

fun step :: "platform \<Rightarrow> event \<Rightarrow> state \<Rightarrow> state" where
  "step pf (CreateOrder env orderData) st = snd (create_order pf env orderData st)"
| "step pf (TakeOrder env orderId mId mName) st = snd (take_order_api pf env orderId mId mName st)"
| "step pf (UploadPhoto env orderId type photoUrl) st = snd (upload_photo_api env orderId type photoUrl st)"
| "step pf (Start chatId userId userName) st = on_start chatId userId userName st"
| "step pf (CallbackQuery env queryId chatId messageId data fromId firstName) st =
     on_callback_query pf env queryId chatId messageId data fromId firstName st"
| "step pf (Photo env chatId fromId caption fileId) st = on_photo pf env chatId fromId caption fileId st"

definition run :: "platform \<Rightarrow> event list \<Rightarrow> state \<Rightarrow> state" where
  "run pf evs st = fold (step pf) evs st"

subsection \<open>The caption classification as the specification words it\<close>

definition stage_markers :: "(jsstring \<times> jsstring) list" where
  "stage_markers =
     [(na_meste, js ''on_site''), (himiya, js ''chemistry''),
      (do_marker, js ''before''), (posle, js ''after'')]"

definition classify_spec :: "jsstring \<Rightarrow> jsstring option" where
  "classify_spec txt = map_option snd (find (\<lambda>m. occurs_in (fst m) txt) stage_markers)"

section \<open>A concrete run\<close>

text \<open>
  Inputs for evaluating the handlers: a platform whose dates all parse to the instant
  \<open>1000000000\<close> ms, an environment in which every call resolves, and a request body with
  the address \<^verbatim>\<open>'Moskva, 5'\<close> and none of the properties that the handlers assign.
\<close>

definition sample_platform :: platform where
  "sample_platform =
     \<lparr>toLowerCase = toLowerCase_basic, parseDate = (\<lambda>s. Some 1000000000), bot_token = js ''TOKEN''\<rparr>"

definition sample_env :: env where
  "sample_env =
     \<lparr>iso_now = js ''t1'', iso_now2 = js ''t2'', ms_now = 5, ms_now2 = 6,
      deleteMessage_ok = True, sendMessage_ok = True, answer_ok = True, getFile_ok = True,
      ledger_ok = True, ledger2_ok = True, sent_message_id = 77, sent_chat_id = - 100,
      file_path = js ''p.jpg''\<rparr>"

definition sample_order_data :: request_body where
  "sample_order_data =
     \<lparr>manager = js ''m'', customerName = js ''c'', customerPhone = js ''1'',
      customerAddress = Some (Moskva @ js '', 5''), customerFlat = js ''1'', area = js ''40'',
      cleaningType = js ''std'', difficulty = js ''1'', orderDate = js ''2030-01-01'',
      orderTime = js ''10:00'', orderTotal = js ''1'', masterPay = js ''1'', pets = js ''no'',
      equipment = [], chemistry = [], worksDescription = [],
      telegramMessageId = None, telegramChatId = None, masterId = JUndefined, masterName = None,
      takenAt = None, completedAt = None, photos = None\<rparr>"

text \<open>The state after that one order has been created: its id is \<^verbatim>\<open>'CLN-5'\<close>.\<close>

definition one_pending :: state where
  "one_pending = run sample_platform [CreateOrder sample_env sample_order_data] init_state"

text \<open>
  The state after the order has been created and then claimed through the inline action
  by the worker with user id 7, and the same with the closing photo sent after that.
\<close>

definition claimed_inline :: state where
  "claimed_inline =
     run sample_platform
       [CreateOrder sample_env sample_order_data,
        CallbackQuery sample_env (js ''q'') (- 100) 77 (js ''take_CLN-5'') 7 (js ''Ann'')]
       init_state"

definition completed_inline :: state where
  "completed_inline =
     run sample_platform [Photo sample_env 500 7 (Some posle) (js ''f'')] claimed_inline"






text \<open>The state after a worker with user id 7 has sent \<^verbatim>\<open>/start\<close> from chat 500 and that order has been created.\<close>

definition registered_pending :: state where
  "registered_pending =
     run sample_platform [Start 500 7 (js ''Ann''), CreateOrder sample_env sample_order_data] init_state"

section \<open>The keys of the worker directory\<close>

text \<open>Every key of the directory is a string.\<close>

definition string_keys :: "(jsval \<times> int) list \<Rightarrow> bool" where
  "string_keys m = list_all (\<lambda>e. case fst e of JStr s \<Rightarrow> True | _ \<Rightarrow> False) m"

section \<open>Facts about strings\<close>

lemma startsWith_iff: "startsWith s p = (\<exists>after. s = p @ after)"
  by (induction s p rule: startsWith.induct) auto

lemma includes_js_iff: "includes_js s p = occurs_in p s"
proof (induction s)
  case Nil
  show ?case by (simp add: occurs_in_def)
next
  case (Cons a s)
  have "occurs_in p (a # s) = ((\<exists>after. a # s = p @ after) \<or> occurs_in p s)"
  proof
    assume "occurs_in p (a # s)"
    then obtain b c where bc: "a # s = b @ p @ c"
      unfolding occurs_in_def by blast
    show "(\<exists>after. a # s = p @ after) \<or> occurs_in p s"
    proof (cases b)
      case Nil
      with bc show ?thesis by auto
    next
      case (Cons x b')
      with bc have "s = b' @ p @ c" by simp
      then show ?thesis unfolding occurs_in_def by blast
    qed
  next
    assume "(\<exists>after. a # s = p @ after) \<or> occurs_in p s"
    then show "occurs_in p (a # s)"
    proof
      assume "\<exists>after. a # s = p @ after"
      then obtain c where "a # s = [] @ p @ c" by auto
      then show ?thesis unfolding occurs_in_def by blast
    next
      assume "occurs_in p s"
      then obtain b c where "s = b @ p @ c" unfolding occurs_in_def by blast
      then have "a # s = (a # b) @ p @ c" by simp
      then show ?thesis unfolding occurs_in_def by blast
    qed
  qed
  with Cons show ?case by (simp only: includes_js.simps startsWith_iff)
qed

lemma cities_loop_find:
  "cities_loop lower address cs =
     (case find (\<lambda>region. occurs_in (lower region) (lower address)) cs of
        Some region \<Rightarrow> region
      | None \<Rightarrow> Moskva)"
  by (induction cs) (simp_all add: includes_js_iff)

section \<open>Facts about the control flow\<close>

lemma and_then_simps:
  "and_then (Inr st) f = f st" "and_then (Inl st) f = Inl st"
  by (simp_all add: and_then_def)

lemma finish_simps: "finish (Inr st) = st" "finish (Inl st) = st"
  by (simp_all add: finish_def)

lemma respond_simps:
  "respond (Inr st) = (Ok200, st)" "respond (Inl st) = (Error500, st)"
  by (simp_all add: respond_def)

lemma snd_respond: "snd (respond r) = finish r"
  by (cases r) (simp_all add: respond_def finish_def)

lemma log_call_fields:
  "orders (log_call c st) = orders st" "masters (log_call c st) = masters st"
  "timers (log_call c st) = timers st" "sheet (log_call c st) = sheet st"
  by (simp_all add: log_call_def)

lemma js_length: "length (js s) = length s"
  by (simp add: js_def)

section \<open>Facts about the caption classification\<close>

lemma classify_caption_spec:
  "classify_caption s = (case classify_spec s of None \<Rightarrow> [] | Some stage \<Rightarrow> stage)"
  by (simp add: classify_caption_def classify_spec_def stage_markers_def includes_js_iff)

lemma classify_spec_nonempty: "classify_spec s = Some stage \<Longrightarrow> stage \<noteq> []"
  by (auto simp: classify_spec_def stage_markers_def js_def split: if_splits)

section \<open>Facts about maps and the ledger\<close>

lemma find_pos_Some: "find_pos P xs = Some i \<Longrightarrow> i < length xs \<and> P (xs ! i)"
proof (induction xs arbitrary: i)
  case Nil
  then show ?case by simp
next
  case (Cons x xs)
  then show ?case by (cases "P x") auto
qed

lemma update_rows_found:
  "find_pos (row_has_key orderId) rows = Some i \<Longrightarrow>
   update_rows orderId updates rows = rows[i := write_cells 10 (object_values updates) [] (rows ! i)]"
  by (simp add: update_rows_def findIndex_def)

lemma update_rows_absent:
  "find_pos (row_has_key orderId) rows = None \<Longrightarrow> update_rows orderId updates rows = rows"
  by (simp add: update_rows_def findIndex_def)

lemma write_cells_nth:
  "j < length vals \<Longrightarrow> write_cells col vals blank row ! (col + j) = vals ! j"
proof -
  define pre where "pre = take col (row @ replicate (col - length row) blank)"
  have "length pre = col" by (simp add: pre_def)
  then have "(pre @ vals @ drop (col + length vals) row) ! (col + j) = (vals @ drop (col + length vals) row) ! j"
    by (simp add: nth_append)
  also assume "j < length vals"
  then have "(vals @ drop (col + length vals) row) ! j = vals ! j"
    by (simp add: nth_append)
  finally show ?thesis by (simp add: write_cells_def pre_def)
qed

lemma write_cells_before:
  "j < col \<Longrightarrow> j < length row \<Longrightarrow> write_cells col vals blank row ! j = row ! j"
  by (simp add: write_cells_def nth_append)

lemma photo_updates_values:
  "object_values (photo_updates type photoUrl stamp) = [photoUrl, stamp]"
proof -
  have "length (js ''photo_'' @ type) \<noteq> length (type @ js ''_at'')"
    by (simp add: js_length)
  then have "js ''photo_'' @ type \<noteq> type @ js ''_at''" by metis
  then show ?thesis
    by (simp add: photo_updates_def object_values_def map_set_def)
qed

lemma update_rows_cell:
  assumes "find_pos (row_has_key orderId) rows = Some i" "j < length (object_values updates)"
  shows "update_rows orderId updates rows ! i ! (10 + j) = object_values updates ! j"
  using assms find_pos_Some [OF assms(1)]
  by (simp add: update_rows_found write_cells_nth)

lemma map_of_update_first:
  "map_of (update_first (\<lambda>e. fst e = k) (\<lambda>e. (fst e, f (snd e))) xs) k' =
     (if k' = k then map_option f (map_of xs k) else map_of xs k')"
  by (induction xs) auto

lemma modify_order_fields:
  "masters (modify_order k f st) = masters st" "timers (modify_order k f st) = timers st"
  "sheet (modify_order k f st) = sheet st" "bot_log (modify_order k f st) = bot_log st"
  "map_of (orders (modify_order k f st)) k' =
     (if k' = k then map_option f (map_of (orders st) k) else map_of (orders st) k')"
  by (simp_all add: modify_order_def map_of_update_first)

lemma photo_update_cells:
  assumes "find_pos (row_has_key orderId) rows = Some i"
  shows "update_rows orderId (photo_updates type photoUrl stamp) rows ! i ! 10 = photoUrl"
    and "update_rows orderId (photo_updates type photoUrl stamp) rows ! i ! 11 = stamp"
proof -
  have "update_rows orderId (photo_updates type photoUrl stamp) rows ! i ! (10 + 0) = photoUrl"
    using assms by (subst update_rows_cell) (simp_all add: photo_updates_values)
  then show "update_rows orderId (photo_updates type photoUrl stamp) rows ! i ! 10 = photoUrl"
    by simp
  have "update_rows orderId (photo_updates type photoUrl stamp) rows ! i ! (10 + 1) = stamp"
    using assms by (subst update_rows_cell) (simp_all add: photo_updates_values)
  then show "update_rows orderId (photo_updates type photoUrl stamp) rows ! i ! 11 = stamp"
    by simp
qed

section \<open>What each step leaves unchanged\<close>

lemma finish_and_then:
  "finish (and_then r f) = (case r of Inl st \<Rightarrow> st | Inr st \<Rightarrow> finish (f st))"
  by (cases r) (simp_all add: and_then_simps finish_simps)

lemma masters_and_then:
  assumes "\<And>s. masters (finish (f s)) = masters s"
  shows "masters (finish (and_then r f)) = masters (finish r)"
  by (cases r) (simp_all add: and_then_simps finish_simps assms)

lemma orders_and_then:
  assumes "\<And>s. orders (finish (f s)) = orders s"
  shows "orders (finish (and_then r f)) = orders (finish r)"
  by (cases r) (simp_all add: and_then_simps finish_simps assms)

lemma timers_and_then:
  assumes "\<And>s. timers (finish (f s)) = timers s"
  shows "timers (finish (and_then r f)) = timers (finish r)"
  by (cases r) (simp_all add: and_then_simps finish_simps assms)

lemma await_call_fields:
  "orders (finish (await_call ok c st)) = orders st"
  "masters (finish (await_call ok c st)) = masters st"
  "timers (finish (await_call ok c st)) = timers st"
  "sheet (finish (await_call ok c st)) = sheet st"
  by (simp_all add: await_call_def finish_simps log_call_fields)

lemma updateGoogleSheet_fields:
  "orders (finish (updateGoogleSheet ok k u st)) = orders st"
  "masters (finish (updateGoogleSheet ok k u st)) = masters st"
  "timers (finish (updateGoogleSheet ok k u st)) = timers st"
  by (simp_all add: updateGoogleSheet_def finish_simps)

lemma saveToGoogleSheets_fields:
  "orders (finish (saveToGoogleSheets ok stamp d k s st)) = orders st"
  "masters (finish (saveToGoogleSheets ok stamp d k s st)) = masters st"
  "timers (finish (saveToGoogleSheets ok stamp d k s st)) = timers st"
  by (simp_all add: saveToGoogleSheets_def finish_simps)

lemma scheduleNotifications_fields:
  "orders (finish (scheduleNotifications pf env k d t st)) = orders st"
  "masters (finish (scheduleNotifications pf env k d t st)) = masters st"
  by (simp_all add: scheduleNotifications_def finish_simps Let_def split: option.splits)

lemma modify_at_fields:
  "masters (modify_at i f st) = masters st" "timers (modify_at i f st) = timers st"
  "sheet (modify_at i f st) = sheet st" "bot_log (modify_at i f st) = bot_log st"
  by (simp_all add: modify_at_def)

lemmas frame_simps = masters_and_then orders_and_then timers_and_then await_call_fields
  updateGoogleSheet_fields saveToGoogleSheets_fields scheduleNotifications_fields
  modify_at_fields modify_order_fields log_call_fields snd_respond finish_simps


lemma take_order_api_masters: "masters (snd (take_order_api pf env orderId mId mName st)) = masters st"
  by (simp add: take_order_api_def frame_simps Let_def split: option.splits)


lemma upload_photo_api_masters: "masters (snd (upload_photo_api env orderId type photoUrl st)) = masters st"
  by (simp add: upload_photo_api_def frame_simps Let_def split: option.splits)

lemma upload_photo_api_timers: "timers (snd (upload_photo_api env orderId type photoUrl st)) = timers st"
  by (simp add: upload_photo_api_def frame_simps Let_def split: option.splits)

lemma create_order_masters: "masters (snd (create_order pf env orderData st)) = masters st"
  by (simp add: create_order_def frame_simps Let_def split: option.splits)

lemma on_callback_query_masters:
  "masters (on_callback_query pf env queryId chatId messageId data fromId firstName st) = masters st"
  by (simp add: on_callback_query_def frame_simps Let_def split: option.splits)

lemma on_photo_masters:
  "masters (on_photo pf env chatId fromId caption fileId st) = masters st"
  by (simp add: on_photo_def frame_simps Let_def split: option.splits)

section \<open>The worker directory holds string keys only\<close>

lemma map_of_update_first_key:
  "map_of m k = Some old \<Longrightarrow> map_of (update_first (\<lambda>e. fst e = k) (\<lambda>e. (k, v)) m) k = Some v"
  by (induction m) auto

lemma map_of_map_set: "map_of (map_set k v m) k = Some v"
  by (cases "map_of m k") (simp_all add: map_set_def map_of_update_first_key map_add_def)

lemma string_keys_no_number: "string_keys m \<Longrightarrow> map_of m (JNum n) = None"
  by (induction m) (auto simp: string_keys_def split: jsval.splits)

lemma string_keys_update_first:
  "string_keys m \<Longrightarrow> string_keys (update_first P (\<lambda>e. (JStr s, v)) m)"
  by (induction m) (auto simp: string_keys_def)

lemma string_keys_map_set: "string_keys m \<Longrightarrow> string_keys (map_set (JStr s) v m)"
  by (auto simp: map_set_def string_keys_update_first split: option.splits)
     (simp add: string_keys_def)

lemma step_string_keys: "string_keys (masters st) \<Longrightarrow> string_keys (masters (step pf ev st))"
  by (cases ev)
     (simp_all add: create_order_masters take_order_api_masters upload_photo_api_masters
        on_callback_query_masters on_photo_masters on_start_def log_call_fields string_keys_map_set)

lemma run_string_keys: "string_keys (masters st) \<Longrightarrow> string_keys (masters (run pf evs st))"
  unfolding run_def by (induction evs arbitrary: st) (simp_all add: step_string_keys)

lemma reachable_string_keys: "string_keys (masters (run pf evs init_state))"
  by (rule run_string_keys) (simp add: init_state_def string_keys_def)

section \<open>A claim through the inline action\<close>

lemma startsWith_append: "startsWith (p @ s) p"
  by (simp add: startsWith_iff)

lemma replace_first_prefix: "p \<noteq> [] \<Longrightarrow> replace_first p r (p @ s) = r @ s"
  by (cases p) (simp_all add: startsWith_iff)

lemma take_not_reject: "\<not> startsWith (js ''take_'' @ s) (js ''reject_'')"
  by (simp add: js_def)

lemma take_data:
  "startsWith (js ''take_'' @ orderId) (js ''take_'')"
  "replace_first (js ''take_'') [] (js ''take_'' @ orderId) = orderId"
  by (simp_all add: startsWith_append replace_first_prefix js_def)

lemma scheduleNotifications_unregistered:
  "map_of (orders st) orderId = Some order \<Longrightarrow> map_of (masters st) (masterId order) = None \<Longrightarrow>
   scheduleNotifications pf env orderId d t st = Inr st"
  by (simp add: scheduleNotifications_def)

lemma on_callback_query_take_orders:
  assumes "map_of (orders st) orderId = Some order0" "status order0 = Pending"
  shows "orders (on_callback_query pf env queryId chatId messageId (js ''take_'' @ orderId) fromId firstName st)
    = orders (modify_order orderId (claim_fields (JNum fromId) firstName (iso_now env)) st)"
  using assms
  by (simp add: on_callback_query_def take_data take_not_reject frame_simps Let_def)

lemma inv_and_then:
  assumes "P (finish r)" "\<And>s. P s \<Longrightarrow> P (finish (f s))"
  shows "P (finish (and_then r f))"
  using assms by (cases r) (simp_all add: and_then_simps finish_simps)

lemma on_callback_query_take_timers:
  assumes "map_of (orders st) orderId = Some order0" "status order0 = Pending"
    "map_of (masters st) (JNum fromId) = None"
  shows "timers (on_callback_query pf env queryId chatId messageId (js ''take_'' @ orderId) fromId firstName st)
    = timers st"
proof -
  define P where "P s \<longleftrightarrow>
    map_of (orders s) orderId = Some (claim_fields (JNum fromId) firstName (iso_now env) order0) \<and>
    masters s = masters st \<and> timers s = timers st" for s :: state
  have sched: "P (finish (scheduleNotifications pf env orderId d t s))" if "P s" for s d t
    using that assms(3)
    by (simp add: P_def scheduleNotifications_unregistered claim_fields_def finish_simps)
  have start: "P (modify_order orderId (claim_fields (JNum fromId) firstName (iso_now env)) st)"
    using assms(1) by (simp add: P_def modify_order_fields)
  have await: "P (finish (await_call ok c s))" if "P s" for ok c s
    using that by (simp add: P_def await_call_fields)
  have ledger: "P (finish (updateGoogleSheet ok k u s))" if "P s" for ok k u s
    using that by (simp add: P_def updateGoogleSheet_fields)
  have "P (on_callback_query pf env queryId chatId messageId (js ''take_'' @ orderId) fromId firstName st)"
    using assms(1,2)
    apply (simp add: on_callback_query_def take_data take_not_reject Let_def)
    apply (intro inv_and_then [where P = P])
    apply (simp_all add: start await ledger sched finish_simps)
    done
  then show ?thesis by (simp add: P_def)
qed

section \<open>Responses and the photo handler\<close>

lemma fst_respond: "fst (respond r) = (case r of Inl st \<Rightarrow> Error500 | Inr st \<Rightarrow> Ok200)"
  by (cases r) (simp_all add: respond_simps)




lemma on_photo_orders:
  assumes "classify_caption (case caption of None \<Rightarrow> [] | Some c \<Rightarrow> c) = type" "type \<noteq> []"
    "getFile_ok env" "find_pos (taken_by fromId) (orders st) = Some i"
  shows "orders (on_photo pf env chatId fromId caption fileId st) =
    (if type = js ''after'' \<and> ledger_ok env
     then orders (modify_at i (\<lambda>order. order\<lparr>status := Completed\<rparr>) (modify_at i (set_photo type (file_url pf env)) st))
     else orders (modify_at i (set_photo type (file_url pf env)) st))"
  using assms
  by (auto simp: on_photo_def Let_def await_call_def and_then_simps log_call_fields
      updateGoogleSheet_def finish_simps modify_at_def log_call_def)

section \<open>The timers a claim arms\<close>


section \<open>The guard of the inline action\<close>

lemma on_callback_query_refuses:
  assumes "map_of (orders st) orderId = Some order" "status order \<noteq> Pending"
  shows "on_callback_query pf env queryId chatId messageId (js ''take_'' @ orderId) fromId firstName st
    = log_call (AnswerCallbackQuery queryId AlreadyTaken) st"
  using assms
  by (simp add: on_callback_query_def take_data take_not_reject await_call_def and_then_simps finish_simps)

section \<open>Facts about stored photos\<close>

lemma set_photo_plain:
  "type \<noteq> js ''__proto__'' \<Longrightarrow>
   set_photo type photoUrl order =
     order\<lparr>photos := Some ((case photos order of None \<Rightarrow> Map.empty | Some ph \<Rightarrow> ph)(type \<mapsto> photoUrl))\<rparr>"
  by (simp add: set_photo_def)


lemma after_not_proto: "js ''after'' \<noteq> js ''__proto__''"
  by (simp add: js_def)

lemma stage_not_proto: "classify_spec s = Some stage \<Longrightarrow> stage \<noteq> js ''__proto__''"
  by (auto simp: classify_spec_def stage_markers_def js_def split: if_splits)

section \<open>A photo that finds no order\<close>

lemma on_photo_no_order:
  assumes "classify_caption (case caption of None \<Rightarrow> [] | Some c \<Rightarrow> c) \<noteq> []"
    and "\<not> getFile_ok env \<or> find_pos (taken_by fromId) (orders st) = None"
  shows "on_photo pf env chatId fromId caption fileId st = log_call (GetFile fileId) st"
  using assms
  by (auto simp: on_photo_def Let_def await_call_def and_then_simps finish_simps log_call_fields)

section \<open>The timers when a call fails or resolves\<close>





section \<open>The take-order endpoint with nothing in between\<close>

lemma take_order_interleaved_alone:
  "take_order_interleaved pf env orderId mId mName (\<lambda>s. s) st = take_order_api pf env orderId mId mName st"
proof (cases "map_of (orders st) orderId")
  case None
  then show ?thesis
    by (simp add: take_order_interleaved_def take_order_api_def)
next
  case (Some order0)
  then show ?thesis
    by (simp add: take_order_interleaved_def take_order_api_def take_order_after_delete_def Let_def
        await_call_def and_then_simps respond_simps log_call_fields modify_order_fields claim_fields_def)
qed

section \<open>Claims\<close>

text \<open>
  C6. The address-to-region resolution is a function of the address alone (a HOL
  function of its arguments: no state is read or written). For every address string it
  returns the first configured region, in the order of the configuration, whose name
  occurs case-insensitively as a substring of the address, and the default region
  \<^verbatim>\<open>'Moskva'\<close> when no configured name occurs. This holds for every lowering function,
  the built-in one included.
\<close>

theorem extractCityFromAddress_first_match:
  "extractCityFromAddress lower address = resolve_region_spec lower address"
  by (simp add: extractCityFromAddress_def resolve_region_spec_def cities_loop_find
      object_keys_def CITY_CHANNELS_def configured_regions_def default_region_def)

text \<open>
  Four addresses: \<^verbatim>\<open>'Moskva, ul. Lenina 5'\<close>; \<^verbatim>\<open>'g. KAZAN'\<close> in capitals; one that names
  \<^verbatim>\<open>Kazan\<close> before \<^verbatim>\<open>Moskva\<close>, which resolves to the region configured first; and
  \<^verbatim>\<open>'Tver'\<close>, which names no configured region.
\<close>

theorem extractCityFromAddress_first_match_witness:
  "resolve_region_spec toLowerCase_basic (Moskva @ js '', ul. Lenina 5'') = Moskva \<and>
   resolve_region_spec toLowerCase_basic (js ''g. '' @ [0x41A, 0x410, 0x417, 0x410, 0x41D, 0x42C]) = Kazan \<and>
   resolve_region_spec toLowerCase_basic (Kazan @ js '' / '' @ Moskva) = Moskva \<and>
   resolve_region_spec toLowerCase_basic (js ''Tver'') = Moskva"
proof -
  have "extractCityFromAddress toLowerCase_basic (Moskva @ js '', ul. Lenina 5'') = Moskva"
    and "extractCityFromAddress toLowerCase_basic (js ''g. '' @ [0x41A, 0x410, 0x417, 0x410, 0x41D, 0x42C]) = Kazan"
    and "extractCityFromAddress toLowerCase_basic (Kazan @ js '' / '' @ Moskva) = Moskva"
    and "extractCityFromAddress toLowerCase_basic (js ''Tver'') = Moskva"
    by code_simp+
  then show ?thesis
    by (simp add: extractCityFromAddress_first_match [symmetric])
qed

text \<open>
  C9. \<^verbatim>\<open>updateGoogleSheet\<close> writes \<^verbatim>\<open>Object.values(updates)\<close> into the row of the order
  from column K (index 10) on, value \<open>j\<close> into column \<open>10 + j\<close>, and never reads a key:
  two update objects with the same values in the same order give the same result. The
  update object of a photo lists the photo URL first and the timestamp second, so the
  URL lands in column K and the timestamp in column L, here for the update itself and
  for the upload endpoint as a whole. Column K is where \<^verbatim>\<open>saveToGoogleSheets\<close> puts the
  status.
\<close>

theorem ledger_update_is_positional:
  "find_pos (row_has_key orderId) (sheet st) = Some i \<Longrightarrow>
   (\<exists>st'. updateGoogleSheet True orderId updates st = Inr st' \<and>
      (\<forall>j < length (object_values updates).
         sheet st' ! i ! (10 + j) = object_values updates ! j)) \<and>
   (object_values updates = object_values updates' \<longrightarrow>
      updateGoogleSheet ok orderId updates st = updateGoogleSheet ok orderId updates' st) \<and>
   (\<exists>st'. updateGoogleSheet True orderId (photo_updates type photoUrl stamp) st = Inr st' \<and>
      sheet st' ! i ! 10 = photoUrl \<and> sheet st' ! i ! 11 = stamp) \<and>
   (map_of (orders st) orderId \<noteq> None \<and> ledger_ok env \<longrightarrow>
      sheet (snd (upload_photo_api env orderId type photoUrl st)) ! i ! 10 = photoUrl) \<and>
   ledger_row stamp' orderData orderId' s ! 10 = status_string s"
proof (intro conjI impI)
  assume f: "find_pos (row_has_key orderId) (sheet st) = Some i"
  show "\<exists>st'. updateGoogleSheet True orderId updates st = Inr st' \<and>
      (\<forall>j < length (object_values updates).
         sheet st' ! i ! (10 + j) = object_values updates ! j)"
    using f by (simp add: updateGoogleSheet_def update_rows_cell)
  show "\<exists>st'. updateGoogleSheet True orderId (photo_updates type photoUrl stamp) st = Inr st' \<and>
      sheet st' ! i ! 10 = photoUrl \<and> sheet st' ! i ! 11 = stamp"
    using f by (simp add: updateGoogleSheet_def photo_update_cells)
  show "sheet (snd (upload_photo_api env orderId type photoUrl st)) ! i ! 10 = photoUrl"
    if "map_of (orders st) orderId \<noteq> None \<and> ledger_ok env"
    using that f
    by (auto simp: upload_photo_api_def photo_update_cells updateGoogleSheet_def and_then_simps snd_respond
        finish_simps await_call_def log_call_fields modify_order_fields)
next
  show "updateGoogleSheet ok orderId updates st = updateGoogleSheet ok orderId updates' st"
    if "object_values updates = object_values updates'"
    using that by (simp add: updateGoogleSheet_def update_rows_def Let_def)
  show "ledger_row stamp' orderData orderId' s ! 10 = status_string s"
    by (simp add: ledger_row_def)
qed

text \<open>
  After the upload of a \<^verbatim>\<open>before\<close> photo for the order \<^verbatim>\<open>CLN-5\<close>, the cell that held
  \<^verbatim>\<open>pending\<close> holds the URL.
\<close>

theorem ledger_update_is_positional_witness:
  "find_pos (row_has_key (js ''CLN-5'')) (sheet one_pending) = Some 0 \<and>
   map_of (orders one_pending) (js ''CLN-5'') \<noteq> None \<and> ledger_ok sample_env \<and>
   sheet one_pending ! 0 ! 10 = js ''pending'' \<and>
   sheet (snd (upload_photo_api sample_env (js ''CLN-5'') (js ''before'') (js ''u'') one_pending)) ! 0 ! 10
     = js ''u''"
proof -
  have h: "find_pos (row_has_key (js ''CLN-5'')) (sheet one_pending) = Some 0"
    by code_simp
  have o: "map_of (orders one_pending) (js ''CLN-5'') \<noteq> None"
    by code_simp
  have e: "ledger_ok sample_env"
    by (simp add: sample_env_def)
  have p: "sheet one_pending ! 0 ! 10 = js ''pending''"
    by code_simp
  from ledger_update_is_positional [OF h, where env = sample_env and type = "js ''before''"
      and photoUrl = "js ''u''"] o e
  have "sheet (snd (upload_photo_api sample_env (js ''CLN-5'') (js ''before'') (js ''u'') one_pending)) ! 0 ! 10
     = js ''u''"
    by blast
  with h o e p show ?thesis by blast
qed

text \<open>
  C10. \<^verbatim>\<open>/start\<close> stores the worker under the string \<^verbatim>\<open>userId.toString()\<close>; that is the
  only write to the directory, so in every state the process can reach from its start all
  directory keys are strings. A claim through the inline action records the number
  \<^verbatim>\<open>callbackQuery.from.id\<close> on the order. A number is not a string, so the lookup of
  that identity finds nothing, before and after the claim, and the claim arms no timer:
  the timers are the ones there were.
\<close>

theorem inline_claim_arms_no_reminder:
  assumes "st = run pf evs init_state"
    and "map_of (orders st) orderId = Some order0" and "status order0 = Pending"
  shows "map_of (masters (on_start chatId userId userName st)) (JStr (num_toString userId)) = Some chatId \<and>
    map_of (orders (on_callback_query pf env queryId chat messageId (js ''take_'' @ orderId) userId firstName st))
        orderId = Some (claim_fields (JNum userId) firstName (iso_now env) order0) \<and>
    masterId (claim_fields (JNum userId) firstName (iso_now env) order0) = JNum userId \<and>
    map_of (masters (on_callback_query pf env queryId chat messageId (js ''take_'' @ orderId) userId firstName st))
        (JNum userId) = None \<and>
    timers (on_callback_query pf env queryId chat messageId (js ''take_'' @ orderId) userId firstName st)
      = timers st"
proof -
  have keys: "string_keys (masters st)"
    using assms(1) by (simp add: reachable_string_keys)
  then have none: "map_of (masters st) (JNum userId) = None"
    by (rule string_keys_no_number)
  have "map_of (masters (on_start chatId userId userName st)) (JStr (num_toString userId)) = Some chatId"
    by (simp add: on_start_def log_call_fields map_of_map_set)
  moreover have "map_of (orders (on_callback_query pf env queryId chat messageId (js ''take_'' @ orderId) userId firstName st))
        orderId = Some (claim_fields (JNum userId) firstName (iso_now env) order0)"
    using assms(2,3) by (simp add: on_callback_query_take_orders modify_order_fields)
  moreover have "masterId (claim_fields (JNum userId) firstName (iso_now env) order0) = JNum userId"
    by (simp add: claim_fields_def)
  moreover have "map_of (masters (on_callback_query pf env queryId chat messageId (js ''take_'' @ orderId) userId firstName st))
        (JNum userId) = None"
    using none by (simp add: on_callback_query_masters)
  moreover have "timers (on_callback_query pf env queryId chat messageId (js ''take_'' @ orderId) userId firstName st)
      = timers st"
    using assms(2,3) none by (rule on_callback_query_take_timers)
  ultimately show ?thesis by blast
qed

text \<open>
  The worker 7 is in the directory under \<^verbatim>\<open>'7'\<close>, claims the pending order \<^verbatim>\<open>CLN-5\<close>
  through the inline action, and no timer is armed.
\<close>

theorem inline_claim_arms_no_reminder_witness:
  "map_of (masters registered_pending) (JStr (js ''7'')) = Some 500 \<and>
   map_option status (map_of (orders registered_pending) (js ''CLN-5'')) = Some Pending \<and>
   map_option masterId
     (map_of (orders (on_callback_query sample_platform sample_env (js ''q'') (- 100) 77
        (js ''take_CLN-5'') 7 (js ''Ann'') registered_pending)) (js ''CLN-5'')) = Some (JNum 7) \<and>
   timers (on_callback_query sample_platform sample_env (js ''q'') (- 100) 77
        (js ''take_CLN-5'') 7 (js ''Ann'') registered_pending) = []"
proof -
  have r: "registered_pending =
     run sample_platform [Start 500 7 (js ''Ann''), CreateOrder sample_env sample_order_data] init_state"
    by (simp add: registered_pending_def)
  have m: "map_of (masters registered_pending) (JStr (js ''7'')) = Some 500"
    by code_simp
  have p: "map_option status (map_of (orders registered_pending) (js ''CLN-5'')) = Some Pending"
    by code_simp
  then obtain order0 where o: "map_of (orders registered_pending) (js ''CLN-5'') = Some order0"
    and s: "status order0 = Pending"
    by (cases "map_of (orders registered_pending) (js ''CLN-5'')") auto
  have t: "timers registered_pending = []"
    by code_simp
  have d: "js ''take_CLN-5'' = js ''take_'' @ js ''CLN-5''"
    by (simp add: js_def)
  from inline_claim_arms_no_reminder [OF r o s, where env = sample_env and queryId = "js ''q''"
      and chat = "- 100" and messageId = 77 and userId = 7 and firstName = "js ''Ann''"]
  show ?thesis using m p t d by (simp add: claim_fields_def)
qed

text \<open>
  C4, as stated, fails on both paths. Through the upload endpoint a photo of type
  \<^verbatim>\<open>after\<close> for the taken order \<^verbatim>\<open>CLN-5\<close> is answered 200 and the order stays taken.
  Through the bot the order becomes completed, and \<^verbatim>\<open>completedAt\<close> is still undefined.
\<close>

theorem after_photo_counterexample:
  "map_option status (map_of (orders claimed_inline) (js ''CLN-5'')) = Some Taken \<and>
   fst (upload_photo_api sample_env (js ''CLN-5'') (js ''after'') (js ''u'') claimed_inline) = Ok200 \<and>
   map_option status (map_of (orders (snd (upload_photo_api sample_env (js ''CLN-5'') (js ''after'') (js ''u'')
      claimed_inline))) (js ''CLN-5'')) = Some Taken \<and>
   map_option completedAt (map_of (orders (snd (upload_photo_api sample_env (js ''CLN-5'') (js ''after'')
      (js ''u'') claimed_inline))) (js ''CLN-5'')) = Some None \<and>
   map_option status (map_of (orders (on_photo sample_platform sample_env 500 7 (Some posle) (js ''f'')
      claimed_inline)) (js ''CLN-5'')) = Some Completed \<and>
   map_option completedAt (map_of (orders (on_photo sample_platform sample_env 500 7 (Some posle) (js ''f'')
      claimed_inline)) (js ''CLN-5'')) = Some None"
  by code_simp

text \<open>
  C4, amended. The photo handler of the bot resolves the sender's order as the first
  stored order with \<^verbatim>\<open>status = 'taken'\<close> and the sender's numeric id. For that order, a
  photo whose caption classifies as \<^verbatim>\<open>after\<close>, with the file lookup and the ledger update
  of the photo resolving, stores the photo and sets \<^verbatim>\<open>status = 'completed'\<close>; nothing else
  of the order changes, and in particular \<^verbatim>\<open>completedAt\<close> is what it was.
\<close>

theorem after_photo_completes_through_bot:
  assumes "classify_caption (case caption of None \<Rightarrow> [] | Some c \<Rightarrow> c) = js ''after''"
    and "getFile_ok env" and "ledger_ok env"
    and "find_pos (taken_by fromId) (orders st) = Some i"
  shows "status (snd (orders st ! i)) = Taken \<and> masterId (snd (orders st ! i)) = JNum fromId \<and>
    orders (on_photo pf env chatId fromId caption fileId st)
      = (orders st)[i := (fst (orders st ! i),
           (snd (orders st ! i))\<lparr>photos :=
              Some ((case photos (snd (orders st ! i)) of None \<Rightarrow> Map.empty | Some ph \<Rightarrow> ph)
                      (js ''after'' \<mapsto> file_url pf env)),
            status := Completed\<rparr>)] \<and>
    status (snd (orders (on_photo pf env chatId fromId caption fileId st) ! i)) = Completed \<and>
    completedAt (snd (orders (on_photo pf env chatId fromId caption fileId st) ! i))
      = completedAt (snd (orders st ! i))"
proof -
  have b: "i < length (orders st)" "taken_by fromId (orders st ! i)"
    using find_pos_Some [OF assms(4)] by simp_all
  have "js ''after'' \<noteq> []" by (simp add: js_def)
  with assms have "orders (on_photo pf env chatId fromId caption fileId st)
     = orders (modify_at i (\<lambda>x. x\<lparr>status := Completed\<rparr>)
         (modify_at i (set_photo (js ''after'') (file_url pf env)) st))"
    by (simp add: on_photo_orders)
  with b show ?thesis
    by (simp add: modify_at_def set_photo_plain after_not_proto taken_by_def)
qed

text \<open>The worker 7 holds \<^verbatim>\<open>CLN-5\<close> and sends a photo captioned \<^verbatim>\<open>'posle'\<close>.\<close>

theorem after_photo_completes_through_bot_witness:
  "find_pos (taken_by 7) (orders claimed_inline) = Some 0 \<and>
   status (snd (orders claimed_inline ! 0)) = Taken \<and>
   status (snd (orders (on_photo sample_platform sample_env 500 7 (Some posle) (js ''f'') claimed_inline) ! 0))
     = Completed \<and>
   completedAt (snd (orders (on_photo sample_platform sample_env 500 7 (Some posle) (js ''f'') claimed_inline) ! 0))
     = None"
proof -
  have f: "find_pos (taken_by 7) (orders claimed_inline) = Some 0"
    by code_simp
  have c: "classify_caption (case Some posle of None \<Rightarrow> [] | Some c \<Rightarrow> c) = js ''after''"
    by code_simp
  have e: "getFile_ok sample_env" "ledger_ok sample_env"
    by (simp_all add: sample_env_def)
  have n: "completedAt (snd (orders claimed_inline ! 0)) = None"
    by code_simp
  from after_photo_completes_through_bot [OF c e f, where pf = sample_platform and chatId = 500
      and fileId = "js ''f''"]
  have "status (snd (orders claimed_inline ! 0)) = Taken"
    and "status (snd (orders (on_photo sample_platform sample_env 500 7 (Some posle) (js ''f'')
      claimed_inline) ! 0)) = Completed"
    and "completedAt (snd (orders (on_photo sample_platform sample_env 500 7 (Some posle) (js ''f'')
      claimed_inline) ! 0)) = completedAt (snd (orders claimed_inline ! 0))"
    by blast+
  with f n show ?thesis by simp
qed

text \<open>
  C1 does not hold of the take-order endpoint, which assigns the claim without reading
  \<^verbatim>\<open>status\<close>: the order \<^verbatim>\<open>CLN-5\<close>, taken by the worker 7 through the inline action, is
  claimed again through the endpoint by the worker \<^verbatim>\<open>'9'\<close>; the answer is 200 and the
  order now names that worker. The inline action has the guard (\<open>on_callback_query_refuses\<close>).
\<close>

theorem take_order_api_overwrites_claim:
  "map_option status (map_of (orders claimed_inline) (js ''CLN-5'')) = Some Taken \<and>
   map_option masterId (map_of (orders claimed_inline) (js ''CLN-5'')) = Some (JNum 7) \<and>
   fst (take_order_api sample_platform sample_env (js ''CLN-5'') (JStr (js ''9'')) (js ''Bob'') claimed_inline)
     = Ok200 \<and>
   map_option masterId (map_of (orders (snd (take_order_api sample_platform sample_env (js ''CLN-5'')
      (JStr (js ''9'')) (js ''Bob'') claimed_inline))) (js ''CLN-5'')) = Some (JStr (js ''9'')) \<and>
   map_option masterName (map_of (orders (snd (take_order_api sample_platform sample_env (js ''CLN-5'')
      (JStr (js ''9'')) (js ''Bob'') claimed_inline))) (js ''CLN-5'')) = Some (Some (js ''Bob''))"
  by code_simp

text \<open>
  C2 does not hold of the take-order endpoint either: the completed order \<^verbatim>\<open>CLN-5\<close> is
  claimed through the endpoint, and its status goes back to \<^verbatim>\<open>taken\<close>.
\<close>

theorem take_order_api_reopens_completed:
  "map_option status (map_of (orders completed_inline) (js ''CLN-5'')) = Some Completed \<and>
   fst (take_order_api sample_platform sample_env (js ''CLN-5'') (JStr (js ''9'')) (js ''Bob'') completed_inline)
     = Ok200 \<and>
   map_option status (map_of (orders (run sample_platform
      [TakeOrder sample_env (js ''CLN-5'') (JStr (js ''9'')) (js ''Bob'')] completed_inline)) (js ''CLN-5''))
     = Some Taken"
  by code_simp

text \<open>
  C8. The photo handler classifies a caption by the first marker, in the order
  \<^verbatim>\<open>on_site\<close>, \<^verbatim>\<open>chemistry\<close>, \<^verbatim>\<open>before\<close>, \<^verbatim>\<open>after\<close>, that occurs in it: a caption in which
  several markers occur gets the earliest of them. Every stage name is a non-empty
  string, so a caption is dropped exactly when no marker occurs in it, and then the
  handler returns the state it was given: no order, ledger row or timer changes and no
  call to the bot is issued. When a marker occurs, the handler acts on that
  classification: with the file lookup resolving and the sender holding a taken order,
  the photo is stored under \<^verbatim>\<open>photos[stage]\<close> of that order, for the stage of the first
  marker and no other, and the order is completed exactly when that stage is \<^verbatim>\<open>after\<close>
  and the ledger update of the photo resolves; when the file lookup rejects or the sender
  holds no taken order, the lookup is all that happens.
\<close>

theorem photo_caption_first_match:
  "classify_caption s = (case classify_spec s of None \<Rightarrow> [] | Some stage \<Rightarrow> stage) \<and>
   (classify_spec s \<noteq> None \<longrightarrow> classify_caption s \<noteq> []) \<and>
   (classify_spec (case caption of None \<Rightarrow> [] | Some c \<Rightarrow> c) = None \<longrightarrow>
      on_photo pf env chatId fromId caption fileId st = st) \<and>
   (classify_spec (case caption of None \<Rightarrow> [] | Some c \<Rightarrow> c) = Some stage \<and>
    getFile_ok env \<and> find_pos (taken_by fromId) (orders st) = Some i \<longrightarrow>
      orders (on_photo pf env chatId fromId caption fileId st)
        = (orders st)[i := (fst (orders st ! i),
             (snd (orders st ! i))\<lparr>photos :=
                Some ((case photos (snd (orders st ! i)) of None \<Rightarrow> Map.empty | Some ph \<Rightarrow> ph)
                        (stage \<mapsto> file_url pf env)),
              status := (if stage = js ''after'' \<and> ledger_ok env then Completed else Taken)\<rparr>)]) \<and>
   (classify_spec (case caption of None \<Rightarrow> [] | Some c \<Rightarrow> c) = Some stage \<and>
    (\<not> getFile_ok env \<or> find_pos (taken_by fromId) (orders st) = None) \<longrightarrow>
      on_photo pf env chatId fromId caption fileId st = log_call (GetFile fileId) st)"
proof (intro conjI impI; (elim conjE)?)
  show "classify_caption s = (case classify_spec s of None \<Rightarrow> [] | Some stage \<Rightarrow> stage)"
    by (rule classify_caption_spec)
  show "classify_caption s \<noteq> []" if "classify_spec s \<noteq> None"
    using that classify_spec_nonempty [of s] by (auto simp: classify_caption_spec)
  show "on_photo pf env chatId fromId caption fileId st = st"
    if "classify_spec (case caption of None \<Rightarrow> [] | Some c \<Rightarrow> c) = None"
    using that by (simp add: on_photo_def classify_caption_spec finish_simps)
next
  assume c: "classify_spec (case caption of None \<Rightarrow> [] | Some c \<Rightarrow> c) = Some stage"
    and g: "getFile_ok env" and f: "find_pos (taken_by fromId) (orders st) = Some i"
  have b: "i < length (orders st)" "taken_by fromId (orders st ! i)"
    using find_pos_Some [OF f] by simp_all
  have k: "classify_caption (case caption of None \<Rightarrow> [] | Some c \<Rightarrow> c) = stage"
    using c by (simp add: classify_caption_spec)
  have n: "stage \<noteq> []" "stage \<noteq> js ''__proto__''"
    using c by (rule classify_spec_nonempty, rule stage_not_proto)
  show "orders (on_photo pf env chatId fromId caption fileId st)
        = (orders st)[i := (fst (orders st ! i),
             (snd (orders st ! i))\<lparr>photos :=
                Some ((case photos (snd (orders st ! i)) of None \<Rightarrow> Map.empty | Some ph \<Rightarrow> ph)
                        (stage \<mapsto> file_url pf env)),
              status := (if stage = js ''after'' \<and> ledger_ok env then Completed else Taken)\<rparr>)]"
  proof -
    define x where "x = snd (orders st ! i)"
    have sx: "status x = Taken"
      using b(2) by (simp add: taken_by_def x_def)
    have same: "y\<lparr>status := Taken\<rparr> = y" if "status y = Taken" for y :: order
      using that by (cases y) simp
    have "x\<lparr>photos := p, status := Taken\<rparr> = x\<lparr>photos := p\<rparr>" for p
      using sx by (simp add: same)
    then show ?thesis
      using b(1) n
      by (auto simp: on_photo_orders [OF k n(1) g f] modify_at_def set_photo_plain x_def)
  qed
next
  assume c: "classify_spec (case caption of None \<Rightarrow> [] | Some c \<Rightarrow> c) = Some stage"
    and o: "\<not> getFile_ok env \<or> find_pos (taken_by fromId) (orders st) = None"
  have "classify_caption (case caption of None \<Rightarrow> [] | Some c \<Rightarrow> c) \<noteq> []"
    using c classify_spec_nonempty [OF c] by (simp add: classify_caption_spec)
  then show "on_photo pf env chatId fromId caption fileId st = log_call (GetFile fileId) st"
    using o by (rule on_photo_no_order)
qed

text \<open>
  The caption \<^verbatim>\<open>'do i posle'\<close> holds the markers of \<^verbatim>\<open>before\<close> and of \<^verbatim>\<open>after\<close> and is
  classified \<^verbatim>\<open>before\<close>: sent by the worker 7, who holds \<^verbatim>\<open>CLN-5\<close>, it is stored under
  \<^verbatim>\<open>before\<close>, nothing is stored under \<^verbatim>\<open>after\<close> and the order stays taken. The caption
  \<^verbatim>\<open>'hello'\<close> holds no marker and the photo is dropped. The worker 8 holds no order.
\<close>

theorem photo_caption_first_match_witness:
  "classify_spec (do_marker @ js '' i '' @ posle) = Some (js ''before'') \<and>
   classify_caption (do_marker @ js '' i '' @ posle) = js ''before'' \<and>
   classify_spec (js ''hello'') = None \<and>
   on_photo sample_platform sample_env 1 2 (Some (js ''hello'')) (js ''f'') one_pending = one_pending \<and>
   find_pos (taken_by 7) (orders claimed_inline) = Some 0 \<and>
   map_option (\<lambda>x. case photos x of None \<Rightarrow> None | Some ph \<Rightarrow> ph (js ''before''))
     (map_of (orders (on_photo sample_platform sample_env 500 7 (Some (do_marker @ js '' i '' @ posle))
        (js ''f'') claimed_inline)) (js ''CLN-5'')) = Some (Some (file_url sample_platform sample_env)) \<and>
   map_option (\<lambda>x. case photos x of None \<Rightarrow> None | Some ph \<Rightarrow> ph (js ''after''))
     (map_of (orders (on_photo sample_platform sample_env 500 7 (Some (do_marker @ js '' i '' @ posle))
        (js ''f'') claimed_inline)) (js ''CLN-5'')) = Some None \<and>
   map_option status
     (map_of (orders (on_photo sample_platform sample_env 500 7 (Some (do_marker @ js '' i '' @ posle))
        (js ''f'') claimed_inline)) (js ''CLN-5'')) = Some Taken \<and>
   find_pos (taken_by 8) (orders claimed_inline) = None \<and>
   on_photo sample_platform sample_env 500 8 (Some posle) (js ''f'') claimed_inline
     = log_call (GetFile (js ''f'')) claimed_inline"
proof -
  have a: "classify_spec (do_marker @ js '' i '' @ posle) = Some (js ''before'')"
    by (simp add: classify_spec_def stage_markers_def includes_js_iff [symmetric]
        js_def na_meste_def himiya_def do_marker_def posle_def)
  have a': "classify_spec (case Some (do_marker @ js '' i '' @ posle) of None \<Rightarrow> [] | Some c \<Rightarrow> c)
      = Some (js ''before'')"
    using a by simp
  have b: "classify_spec (case Some (js ''hello'') of None \<Rightarrow> [] | Some c \<Rightarrow> c) = None"
    by (simp add: classify_spec_def stage_markers_def includes_js_iff [symmetric]
        js_def na_meste_def himiya_def do_marker_def posle_def)
  have c: "classify_spec (case Some posle of None \<Rightarrow> [] | Some c \<Rightarrow> c) = Some (js ''after'')"
    by (simp add: classify_spec_def stage_markers_def includes_js_iff [symmetric]
        js_def na_meste_def himiya_def do_marker_def posle_def)
  have e: "getFile_ok sample_env" "ledger_ok sample_env"
    by (simp_all add: sample_env_def)
  have f: "find_pos (taken_by 7) (orders claimed_inline) = Some 0"
    "find_pos (taken_by 8) (orders claimed_inline) = None"
    by code_simp+
  have k: "js ''before'' \<noteq> js ''after''"
    by (simp add: js_def)
  have l: "orders claimed_inline \<noteq> []"
    "length (orders claimed_inline) = 1"
    "map_option status (map_of (orders claimed_inline) (js ''CLN-5'')) = Some Taken"
    "map_option (\<lambda>x. case photos x of None \<Rightarrow> None | Some ph \<Rightarrow> ph (js ''after''))
       (map_of (orders claimed_inline) (js ''CLN-5'')) = Some None"
    by code_simp+
  note t = photo_caption_first_match [where pf = sample_platform and env = sample_env
      and fileId = "js ''f''"]
  from t [where s = "do_marker @ js '' i '' @ posle" and caption = "Some (js ''hello'')"
      and chatId = 1 and fromId = 2 and st = one_pending] a b
  have w1: "classify_caption (do_marker @ js '' i '' @ posle) = js ''before''"
    and w2: "on_photo sample_platform sample_env 1 2 (Some (js ''hello'')) (js ''f'') one_pending = one_pending"
    by simp_all
  from t [where caption = "Some (do_marker @ js '' i '' @ posle)" and stage = "js ''before''"
      and chatId = 500 and fromId = 7 and st = claimed_inline and i = 0] a' e f
  have w3: "orders (on_photo sample_platform sample_env 500 7 (Some (do_marker @ js '' i '' @ posle))
        (js ''f'') claimed_inline)
      = (orders claimed_inline)[0 := (fst (orders claimed_inline ! 0),
           (snd (orders claimed_inline ! 0))\<lparr>photos :=
              Some ((case photos (snd (orders claimed_inline ! 0)) of None \<Rightarrow> Map.empty | Some ph \<Rightarrow> ph)
                      (js ''before'' \<mapsto> file_url sample_platform sample_env)),
            status := (if js ''before'' = js ''after'' \<and> ledger_ok sample_env then Completed else Taken)\<rparr>)]"
    by blast
  from t [where caption = "Some posle" and stage = "js ''after''"
      and chatId = 500 and fromId = 8 and st = claimed_inline] c f
  have w4: "on_photo sample_platform sample_env 500 8 (Some posle) (js ''f'') claimed_inline
     = log_call (GetFile (js ''f'')) claimed_inline"
    by blast
  obtain key order0 where o: "orders claimed_inline = [(key, order0)]"
    using l(2) by (cases "orders claimed_inline") auto
  have "key = js ''CLN-5''" "status order0 = Taken"
    "(case photos order0 of None \<Rightarrow> None | Some ph \<Rightarrow> ph (js ''after'')) = None"
    using l(3,4) o by (auto split: if_splits)
  then show ?thesis
    using a b f w1 w2 w4 k by (auto simp: w3 o split: option.splits)
qed







text \<open>
  C3 does not hold of the upload endpoint, which stores the photo without reading
  \<^verbatim>\<open>status\<close>: for the pending order \<^verbatim>\<open>CLN-5\<close>, and again once it is completed, the
  endpoint answers 200 and the order then holds the photo it did not hold before. The
  photo handler of the bot stores a photo only for an order that is taken.
\<close>

theorem upload_photo_api_ignores_status:
  "map_option status (map_of (orders one_pending) (js ''CLN-5'')) = Some Pending \<and>
   fst (upload_photo_api sample_env (js ''CLN-5'') (js ''before'') (js ''u'') one_pending) = Ok200 \<and>
   map_option (\<lambda>x. case photos x of None \<Rightarrow> None | Some ph \<Rightarrow> ph (js ''before''))
     (map_of (orders one_pending) (js ''CLN-5'')) = Some None \<and>
   map_option (\<lambda>x. case photos x of None \<Rightarrow> None | Some ph \<Rightarrow> ph (js ''before''))
     (map_of (orders (snd (upload_photo_api sample_env (js ''CLN-5'') (js ''before'') (js ''u'') one_pending)))
        (js ''CLN-5'')) = Some (Some (js ''u'')) \<and>
   map_option status (map_of (orders completed_inline) (js ''CLN-5'')) = Some Completed \<and>
   fst (upload_photo_api sample_env (js ''CLN-5'') (js ''before'') (js ''u'') completed_inline) = Ok200 \<and>
   map_option (\<lambda>x. case photos x of None \<Rightarrow> None | Some ph \<Rightarrow> ph (js ''before''))
     (map_of (orders completed_inline) (js ''CLN-5'')) = Some None \<and>
   map_option (\<lambda>x. case photos x of None \<Rightarrow> None | Some ph \<Rightarrow> ph (js ''before''))
     (map_of (orders (snd (upload_photo_api sample_env (js ''CLN-5'') (js ''before'') (js ''u'') completed_inline)))
        (js ''CLN-5'')) = Some (Some (js ''u''))"
  by code_simp

end
